theory Spec2Isabelle
  imports Complex_Main
begin

section \<open>Python values\<close>

text \<open>
  The program is dynamically typed: spreadsheet cells, attributes of the market-data
  responses and the values written back are Python objects. \<open>pyval\<close> has one constructor
  per kind of object the code tells apart (by \<open>isinstance\<close>, by truthiness or by
  arithmetic). A Python \<open>int\<close> is unbounded. A Python \<open>float\<close> is represented by the
  rational number it denotes: comparisons are exact under this reading, sums and
  quotients are the unrounded ones (IEEE rounding, infinities and NaN are outside the
  model). \<open>PList\<close> stands for the containers, which are neither numbers nor strings.
\<close>

datatype pyval =
    PNone
  | PBool bool
  | PInt int
  | PFloat rat
  | PStr string
  | PList "pyval list"

text \<open>Truthiness, as \<open>if cell\<close> and \<open>not cell\<close> read it.\<close>

fun truthy :: "pyval \<Rightarrow> bool" where
  "truthy PNone = False"
| "truthy (PBool b) = b"
| "truthy (PInt i) = (i \<noteq> 0)"
| "truthy (PFloat r) = (r \<noteq> 0)"
| "truthy (PStr s) = (s \<noteq> [])"
| "truthy (PList xs) = (xs \<noteq> [])"

text \<open>\<open>isinstance(value, (int, float, str))\<close>; \<open>bool\<close> is a subclass of \<open>int\<close>.\<close>

fun is_int_float_str :: "pyval \<Rightarrow> bool" where
  "is_int_float_str (PBool b) = True"
| "is_int_float_str (PInt i) = True"
| "is_int_float_str (PFloat r) = True"
| "is_int_float_str (PStr s) = True"
| "is_int_float_str PNone = False"
| "is_int_float_str (PList xs) = False"

text \<open>The numbers: \<open>int\<close> (with \<open>bool\<close>) and \<open>float\<close>, and the number a value denotes.\<close>

fun is_number :: "pyval \<Rightarrow> bool" where
  "is_number (PBool b) = True"
| "is_number (PInt i) = True"
| "is_number (PFloat r) = True"
| "is_number (PStr s) = False"
| "is_number PNone = False"
| "is_number (PList xs) = False"

fun is_float :: "pyval \<Rightarrow> bool" where
  "is_float (PFloat r) = True"
| "is_float (PBool b) = False"
| "is_float (PInt i) = False"
| "is_float (PStr s) = False"
| "is_float PNone = False"
| "is_float (PList xs) = False"

fun int_of :: "pyval \<Rightarrow> int" where
  "int_of (PBool b) = (if b then 1 else 0)"
| "int_of (PInt i) = i"
| "int_of (PFloat r) = 0"
| "int_of (PStr s) = 0"
| "int_of PNone = 0"
| "int_of (PList xs) = 0"

fun num :: "pyval \<Rightarrow> rat" where
  "num (PBool b) = (if b then 1 else 0)"
| "num (PInt i) = of_int i"
| "num (PFloat r) = r"
| "num (PStr s) = 0"
| "num PNone = 0"
| "num (PList xs) = 0"

text \<open>
  The exceptions the program can meet. \<open>IndexError\<close> comes from \<open>row[0]\<close>, \<open>TypeError\<close>
  from arithmetic on a string, \<open>HTTPException\<close> is raised by the endpoint itself, and
  \<open>ExternalError\<close> is anything raised by the spreadsheet gateway, the market-data client
  or the credential decoding.
\<close>

datatype exn =
    IndexError
  | TypeError
  | HTTPException nat string
  | ExternalError string

text \<open>
  \<open>+=\<close>, \<open>>=\<close>, \<open>>\<close> and \<open><\<close> as the aggregation uses them: one operand is always a number
  (a running total, a tier price or the constant 100). Two numbers add and compare as
  numbers, an \<open>int\<close> result staying an \<open>int\<close>; a number against a string, \<open>None\<close> or a
  container raises \<open>TypeError\<close>.
\<close>

definition py_add :: "pyval \<Rightarrow> pyval \<Rightarrow> exn + pyval" where
  "py_add a b =
     (if is_number a \<and> is_number b
      then Inr (if is_float a \<or> is_float b then PFloat (num a + num b)
                else PInt (int_of a + int_of b))
      else Inl TypeError)"

definition py_ge :: "pyval \<Rightarrow> pyval \<Rightarrow> exn + bool" where
  "py_ge a b = (if is_number a \<and> is_number b then Inr (num a \<ge> num b) else Inl TypeError)"

definition py_gt :: "pyval \<Rightarrow> pyval \<Rightarrow> exn + bool" where
  "py_gt a b = (if is_number a \<and> is_number b then Inr (num a > num b) else Inl TypeError)"

definition py_lt :: "pyval \<Rightarrow> pyval \<Rightarrow> exn + bool" where
  "py_lt a b = (if is_number a \<and> is_number b then Inr (num a < num b) else Inl TypeError)"

text \<open>Sequencing of steps that may raise: the first exception ends the block.\<close>

definition bind_exn :: "exn + 'a \<Rightarrow> ('a \<Rightarrow> exn + 'b) \<Rightarrow> exn + 'b" where
  "bind_exn m f = (case m of Inl e \<Rightarrow> Inl e | Inr x \<Rightarrow> f x)"

text \<open>\<open>str(n)\<close> of a non-negative \<open>int\<close>, for the row number inside a range name.\<close>

fun str_nat :: "nat \<Rightarrow> string" where
  "str_nat n =
     (if n < 10 then [''0123456789'' ! n]
      else str_nat (n div 10) @ [''0123456789'' ! (n mod 10)])"

declare str_nat.simps [simp del]

section \<open>The external collaborators and the process state\<close>

text \<open>
  An object with attributes (the \<open>attributes\<close> of one item of a response) is a map from
  attribute names to values; a response is its \<open>data\<close> list (a missing \<open>data\<close> is falsy
  like the empty list and is the empty list here).
\<close>

type_synonym obj = "string \<rightharpoonup> pyval"

record response =
  data :: "obj list"

text \<open>The calls made to the collaborators, in the order they are made.\<close>

datatype event =
    OpenSheet
  | GetAllValues
  | KeywordsByKeyword pyval
  | ProductDatabase pyval
  | Update string "pyval list list"

text \<open>
  What the outside world answers. Each call either raises or returns; the answers of the
  market-data client and of \<open>sheet.update\<close> may depend on everything that happened
  before (the calls so far). \<open>str_val\<close> and \<open>str_exn\<close> are Python's \<open>str()\<close> of a value that
  is not a string and of an exception, as an f-string applies them.
\<close>

record env =
  open_sheet :: "exn option"
  get_all_values :: "exn + pyval list list"
  keywords_by_keyword :: "event list \<Rightarrow> pyval \<Rightarrow> exn + response"
  product_database :: "event list \<Rightarrow> pyval \<Rightarrow> exn + response"
  update :: "event list \<Rightarrow> string \<Rightarrow> pyval list list \<Rightarrow> exn option"
  str_val :: "pyval \<Rightarrow> string"
  str_exn :: "exn \<Rightarrow> string"

definition fmt :: "env \<Rightarrow> pyval \<Rightarrow> string" where
  "fmt w v = (case v of PStr s \<Rightarrow> s | _ \<Rightarrow> str_val w v)"

text \<open>The process-wide log buffer, and the calls made so far.\<close>

record state =
  log_buffer :: "string list"
  calls :: "event list"

definition called :: "event \<Rightarrow> state \<Rightarrow> state" where
  "called ev st = st\<lparr>calls := calls st @ [ev]\<rparr>"

text \<open>\<open>log_message\<close> appends to the buffer (the copy printed to the console is not modelled).\<close>

definition log_message :: "string \<Rightarrow> state \<Rightarrow> state" where
  "log_message message st = st\<lparr>log_buffer := log_buffer st @ [message]\<rparr>"

text \<open>\<open>GET /logs\<close>: the returned list and the state with the buffer cleared.\<close>

definition get_logs :: "state \<Rightarrow> string list \<times> state" where
  "get_logs st = (let logs_to_return = log_buffer st in (logs_to_return, st\<lparr>log_buffer := []\<rparr>))"

section \<open>Helpers\<close>

text \<open>
  \<open>safe_getattr(obj, attr, default)\<close>: the attribute, or the default when the object has
  none; then the default again unless the value is an \<open>int\<close>, a \<open>float\<close> or a \<open>str\<close>.
\<close>

definition safe_getattr :: "obj \<Rightarrow> string \<Rightarrow> pyval \<Rightarrow> pyval" where
  "safe_getattr ob attr dflt =
     (let val = (case ob attr of None \<Rightarrow> dflt | Some v \<Rightarrow> v)
      in if is_int_float_str val then val else dflt)"

text \<open>\<open>is_row_empty\<close>: every cell after the keyword column is falsy.\<close>

definition is_row_empty :: "pyval list \<Rightarrow> bool" where
  "is_row_empty row_data = list_all (\<lambda>cell. \<not> truthy cell) (drop 1 row_data)"

section \<open>Keyword insights\<close>

text \<open>The one row of values that \<open>fetch_keyword_insights\<close> writes.\<close>

definition keyword_insights_values :: "obj \<Rightarrow> pyval list" where
  "keyword_insights_values keyword_data =
     [safe_getattr keyword_data ''monthly_search_volume_exact'' (PInt 0),
      safe_getattr keyword_data ''monthly_search_volume_broad'' (PInt 0),
      safe_getattr keyword_data ''ease_of_ranking_score'' (PInt 0),
      safe_getattr keyword_data ''sponsored_product_count'' (PInt 0),
      PNone, PNone, PNone, PNone,
      PNone, PNone, PNone, PNone,
      PNone, PNone, PNone, PNone,
      safe_getattr keyword_data ''monthly_trend'' (PInt 0),
      safe_getattr keyword_data ''quarterly_trend'' (PInt 0),
      safe_getattr keyword_data ''recommended_promotions'' (PInt 0),
      safe_getattr keyword_data ''sp_brand_ad_bid'' (PInt 0),
      safe_getattr keyword_data ''ppc_bid_broad'' (PInt 0),
      safe_getattr keyword_data ''ppc_bid_exact'' (PInt 0),
      safe_getattr keyword_data ''estimated_30_day_search_volume'' (PInt 0)]"

text \<open>
  The \<open>try\<close> block of \<open>fetch_keyword_insights\<close>: the exception that leaves it, if any, and
  the state reached. The keyword between single quotes in two of the messages is written
  with the quote character \<open>CHR 0x27\<close>.
\<close>

definition fetch_keyword_insights_try ::
    "env \<Rightarrow> pyval \<Rightarrow> nat \<Rightarrow> state \<Rightarrow> exn option \<times> state" where
  "fetch_keyword_insights_try w keyword row_index st =
     (let st1 = called (KeywordsByKeyword keyword) st in
      case keywords_by_keyword w (calls st) keyword of
        Inl e \<Rightarrow> (Some e, st1)
      | Inr response \<Rightarrow>
          (case data response of
             [] \<Rightarrow>
               (None, log_message (''No keyword insight data returned for: '' @ fmt w keyword) st1)
           | item # _ \<Rightarrow>
               (let range_name = ''B'' @ str_nat row_index;
                    vals = [keyword_insights_values item];
                    st2 = called (Update range_name vals) st1
                in case update w (calls st1) range_name vals of
                     Some e \<Rightarrow> (Some e, st2)
                   | None \<Rightarrow>
                       (None, log_message (''Keyword insight data for '' @ [CHR 0x27]
                                 @ fmt w keyword @ [CHR 0x27]
                                 @ '' updated in Google Sheet.'') st2))))"

text \<open>The whole function: \<open>except Exception\<close> logs the error and returns normally.\<close>

definition fetch_keyword_insights :: "env \<Rightarrow> pyval \<Rightarrow> nat \<Rightarrow> state \<Rightarrow> state" where
  "fetch_keyword_insights w keyword row_index st =
     (case fetch_keyword_insights_try w keyword row_index st of
        (None, st') \<Rightarrow> st'
      | (Some e, st') \<Rightarrow>
          log_message (''Error fetching keyword insights for '' @ fmt w keyword @ '': ''
                       @ str_exn w e) st')"

section \<open>Product data\<close>

text \<open>The local variables of the aggregation loop of \<open>fetch_product_data\<close>.\<close>

record agg =
  total_sales :: pyval
  total_revenue :: pyval
  total_price :: pyval
  total_reviews :: pyval
  highest_price :: pyval
  highest_price_units :: pyval
  second_highest_price :: pyval
  second_highest_units :: pyval
  third_highest_price :: pyval
  third_highest_units :: pyval
  sellers_with_low_reviews :: int
  irrelevant_listings :: int
  count :: int

definition agg_init :: agg where
  "agg_init =
     \<lparr>total_sales = PInt 0, total_revenue = PInt 0, total_price = PInt 0, total_reviews = PInt 0,
      highest_price = PInt 0, highest_price_units = PInt 0,
      second_highest_price = PInt 0, second_highest_units = PInt 0,
      third_highest_price = PInt 0, third_highest_units = PInt 0,
      sellers_with_low_reviews = 0, irrelevant_listings = 0, count = 0\<rparr>"

text \<open>The three-way placement of a listing with \<open>units_sold >= 100\<close> into the tiers.\<close>

definition place_tier :: "pyval \<Rightarrow> pyval \<Rightarrow> agg \<Rightarrow> exn + agg" where
  "place_tier price units_sold a =
     bind_exn (py_gt price (highest_price a)) (\<lambda>above_highest.
       if above_highest
       then Inr (a\<lparr>third_highest_price := second_highest_price a,
                    third_highest_units := second_highest_units a,
                    second_highest_price := highest_price a,
                    second_highest_units := highest_price_units a,
                    highest_price := price,
                    highest_price_units := units_sold\<rparr>)
       else bind_exn (py_gt price (second_highest_price a)) (\<lambda>above_second.
         if above_second
         then Inr (a\<lparr>third_highest_price := second_highest_price a,
                      third_highest_units := second_highest_units a,
                      second_highest_price := price,
                      second_highest_units := units_sold\<rparr>)
         else bind_exn (py_gt price (third_highest_price a)) (\<lambda>above_third.
           if above_third
           then Inr (a\<lparr>third_highest_price := price, third_highest_units := units_sold\<rparr>)
           else Inr a)))"

text \<open>One iteration of the loop body, for the attributes of one product.\<close>

definition product_step :: "obj \<Rightarrow> agg \<Rightarrow> exn + agg" where
  "product_step attributes a =
     (let units_sold = safe_getattr attributes ''approximate_30_day_units_sold'' (PInt 0);
          revenue = safe_getattr attributes ''approximate_30_day_revenue'' (PInt 0);
          price = safe_getattr attributes ''price'' (PInt 0);
          reviews = safe_getattr attributes ''reviews'' (PInt 0)
      in bind_exn (py_add (total_sales a) units_sold) (\<lambda>ts.
         bind_exn (py_add (total_revenue a) revenue) (\<lambda>tr.
         bind_exn (py_add (total_price a) price) (\<lambda>tp.
         bind_exn (py_add (total_reviews a) reviews) (\<lambda>tv.
         let a1 = a\<lparr>total_sales := ts, total_revenue := tr, total_price := tp,
                     total_reviews := tv, count := count a + 1\<rparr>
         in bind_exn (py_ge units_sold (PInt 100)) (\<lambda>qualifies.
            bind_exn (if qualifies then place_tier price units_sold a1 else Inr a1) (\<lambda>a2.
            bind_exn (py_lt reviews (PInt 100)) (\<lambda>low.
            Inr (if low then a2\<lparr>sellers_with_low_reviews := sellers_with_low_reviews a2 + 1\<rparr>
                 else a2)))))))))"

text \<open>The \<open>for\<close> loop over \<open>response.data\<close>.\<close>

fun product_loop :: "obj list \<Rightarrow> agg \<Rightarrow> exn + agg" where
  "product_loop [] a = Inr a"
| "product_loop (attributes # rest) a = bind_exn (product_step attributes a) (product_loop rest)"

text \<open>\<open>total / count if count else 0\<close>: true division gives a \<open>float\<close>.\<close>

definition average :: "pyval \<Rightarrow> int \<Rightarrow> pyval" where
  "average tot n = (if n \<noteq> 0 then PFloat (num tot / of_int n) else PInt 0)"

text \<open>The row of twelve values written after the loop.\<close>

definition product_values :: "agg \<Rightarrow> pyval list" where
  "product_values a =
     (let avg_sales = average (total_sales a) (count a);
          avg_revenue = average (total_revenue a) (count a);
          avg_price = average (total_price a) (count a);
          avg_reviews = average (total_reviews a) (count a)
      in [avg_sales, avg_revenue, avg_price, avg_reviews,
          highest_price a, highest_price_units a,
          second_highest_price a, second_highest_units a,
          third_highest_price a, third_highest_units a,
          PInt (sellers_with_low_reviews a), PInt (irrelevant_listings a)])"

text \<open>The \<open>try\<close> block of \<open>fetch_product_data\<close>.\<close>

definition fetch_product_data_try ::
    "env \<Rightarrow> pyval \<Rightarrow> nat \<Rightarrow> state \<Rightarrow> exn option \<times> state" where
  "fetch_product_data_try w keyword row_index st =
     (let st1 = called (ProductDatabase keyword) st in
      case product_database w (calls st) keyword of
        Inl e \<Rightarrow> (Some e, st1)
      | Inr response \<Rightarrow>
          if data response = []
          then (None, log_message (''No product database data returned for keyword: ''
                                   @ fmt w keyword) st1)
          else
            (case product_loop (data response) agg_init of
               Inl e \<Rightarrow> (Some e, st1)
             | Inr a \<Rightarrow>
                 (let range_name = ''F'' @ str_nat row_index @ '':Q'' @ str_nat row_index;
                      vals = [product_values a];
                      st2 = called (Update range_name vals) st1
                  in case update w (calls st1) range_name vals of
                       Some e \<Rightarrow> (Some e, st2)
                     | None \<Rightarrow>
                         (None, log_message (''Product data for '' @ [CHR 0x27]
                                   @ fmt w keyword @ [CHR 0x27]
                                   @ '' updated in Google Sheet.'') st2))))"

definition fetch_product_data :: "env \<Rightarrow> pyval \<Rightarrow> nat \<Rightarrow> state \<Rightarrow> state" where
  "fetch_product_data w keyword row_index st =
     (case fetch_product_data_try w keyword row_index st of
        (None, st') \<Rightarrow> st'
      | (Some e, st') \<Rightarrow>
          log_message (''Error fetching product data for '' @ fmt w keyword @ '': ''
                       @ str_exn w e) st')"

section \<open>The automation run\<close>

text \<open>
  The two loops of \<open>run_automation\<close> over \<open>enumerate(data_rows, start=2)\<close>. The body run
  for a chosen row is the parameter \<open>f\<close> (keyword, then row number), so that the same loop
  can run the two updaters or only list the rows it chooses. \<open>row[0]\<close> on a row without
  cells raises \<open>IndexError\<close>, which leaves the loop.
\<close>

fun rows_all ::
    "(pyval \<Rightarrow> nat \<Rightarrow> 's \<Rightarrow> 's) \<Rightarrow> nat \<Rightarrow> pyval list list \<Rightarrow> 's \<Rightarrow> exn option \<times> 's" where
  "rows_all f idx [] s = (None, s)"
| "rows_all f idx (row # rest) s =
     (case row of
        [] \<Rightarrow> (Some IndexError, s)
      | keyword # _ \<Rightarrow>
          if truthy keyword then rows_all f (Suc idx) rest (f keyword idx s)
          else rows_all f (Suc idx) rest s)"

fun rows_new ::
    "(pyval \<Rightarrow> nat \<Rightarrow> 's \<Rightarrow> 's) \<Rightarrow> nat \<Rightarrow> pyval list list \<Rightarrow> 's \<Rightarrow> exn option \<times> 's" where
  "rows_new f idx [] s = (None, s)"
| "rows_new f idx (row # rest) s =
     (case row of
        [] \<Rightarrow> (Some IndexError, s)
      | keyword # _ \<Rightarrow>
          if truthy keyword \<and> is_row_empty row then rows_new f (Suc idx) rest (f keyword idx s)
          else rows_new f (Suc idx) rest s)"

text \<open>What the loops of \<open>run_automation\<close> do for a chosen row.\<close>

definition update_row :: "env \<Rightarrow> pyval \<Rightarrow> nat \<Rightarrow> state \<Rightarrow> state" where
  "update_row w keyword idx st =
     fetch_product_data w keyword idx (fetch_keyword_insights w keyword idx st)"

text \<open>The rows a loop chooses, as (row number, keyword), in order.\<close>

definition note_row :: "pyval \<Rightarrow> nat \<Rightarrow> (nat \<times> pyval) list \<Rightarrow> (nat \<times> pyval) list" where
  "note_row keyword idx acc = acc @ [(idx, keyword)]"

definition selected_all :: "pyval list list \<Rightarrow> (nat \<times> pyval) list" where
  "selected_all data_rows = snd (rows_all note_row 2 data_rows [])"

definition selected_new :: "pyval list list \<Rightarrow> (nat \<times> pyval) list" where
  "selected_new data_rows = snd (rows_new note_row 2 data_rows [])"

text \<open>
  The \<open>try\<close> block of \<open>run_automation\<close>: the returned status, or the exception that leaves
  the block, and the state reached.
\<close>

definition run_automation_try :: "env \<Rightarrow> string \<Rightarrow> state \<Rightarrow> (exn + string) \<times> state" where
  "run_automation_try w update_mode st =
     (let st1 = called OpenSheet st in
      case open_sheet w of
        Some e \<Rightarrow> (Inl e, st1)
      | None \<Rightarrow>
          (let st2 = called GetAllValues st1 in
           case get_all_values w of
             Inl e \<Rightarrow> (Inl e, st2)
           | Inr rows \<Rightarrow>
               (let data_rows = drop 1 rows in
                if update_mode = ''all''
                then (case rows_all (update_row w) 2 data_rows
                             (log_message ''Processing all rows...'' st2) of
                        (Some e, st3) \<Rightarrow> (Inl e, st3)
                      | (None, st3) \<Rightarrow> (Inr ''Automation completed successfully'', st3))
                else if update_mode = ''new''
                then (case rows_new (update_row w) 2 data_rows
                             (log_message ''Processing new rows...'' st2) of
                        (Some e, st3) \<Rightarrow> (Inl e, st3)
                      | (None, st3) \<Rightarrow> (Inr ''Automation completed successfully'', st3))
                else (Inl (HTTPException 400 ''Invalid update mode''), st2))))"

text \<open>
  \<open>POST /run-automation\<close>: any exception leaving the \<open>try\<close> block is logged and replaced
  by \<open>HTTPException(status_code=500)\<close>.
\<close>

definition run_automation :: "env \<Rightarrow> string \<Rightarrow> state \<Rightarrow> (exn + string) \<times> state" where
  "run_automation w update_mode st =
     (case run_automation_try w update_mode st of
        (Inr status, st') \<Rightarrow> (Inr status, st')
      | (Inl e, st') \<Rightarrow>
          (Inl (HTTPException 500 ''Internal Server Error''),
           log_message (''Error in automation: '' @ str_exn w e) st'))"

section \<open>Notions used in the statements, and concrete inputs\<close>

text \<open>The four fields of a product record, as the loop body reads them.\<close>

abbreviation units_sold_of :: "obj \<Rightarrow> pyval" where
  "units_sold_of p \<equiv> safe_getattr p ''approximate_30_day_units_sold'' (PInt 0)"

abbreviation revenue_of :: "obj \<Rightarrow> pyval" where
  "revenue_of p \<equiv> safe_getattr p ''approximate_30_day_revenue'' (PInt 0)"

abbreviation price_of :: "obj \<Rightarrow> pyval" where
  "price_of p \<equiv> safe_getattr p ''price'' (PInt 0)"

abbreviation reviews_of :: "obj \<Rightarrow> pyval" where
  "reviews_of p \<equiv> safe_getattr p ''reviews'' (PInt 0)"

text \<open>A product record whose four fields are numbers (none is a string).\<close>

definition numeric_listing :: "obj \<Rightarrow> bool" where
  "numeric_listing p = (is_number (units_sold_of p) \<and> is_number (revenue_of p) \<and> is_number (price_of p) \<and> is_number (reviews_of p))"

text \<open>
  A listing that can enter a tier: at least 100 units sold and a price above 0. The
  invariant of the tiers, over the listings seen so far: prices are numbers in
  non-increasing order and not negative, a tier is the sentinel or such a listing, and
  tier \<open>n\<close> is still the sentinel while fewer than \<open>n\<close> such listings have been seen.
\<close>

definition placeable :: "obj \<Rightarrow> bool" where
  "placeable p = (100 \<le> num (units_sold_of p) \<and> 0 < num (price_of p))"

definition sentinel_or_listing :: "obj list \<Rightarrow> pyval \<times> pyval \<Rightarrow> bool" where
  "sentinel_or_listing seen t =
     (t = (PInt 0, PInt 0) \<or> (\<exists>p\<in>set seen. placeable p \<and> t = (price_of p, units_sold_of p)))"

definition tiers_inv :: "obj list \<Rightarrow> agg \<Rightarrow> bool" where
  "tiers_inv seen a =
     (is_number (highest_price a) \<and> is_number (second_highest_price a) \<and> is_number (third_highest_price a)
      \<and> 0 \<le> num (third_highest_price a)
      \<and> num (third_highest_price a) \<le> num (second_highest_price a)
      \<and> num (second_highest_price a) \<le> num (highest_price a)
      \<and> sentinel_or_listing seen (highest_price a, highest_price_units a)
      \<and> sentinel_or_listing seen (second_highest_price a, second_highest_units a)
      \<and> sentinel_or_listing seen (third_highest_price a, third_highest_units a)
      \<and> (length (filter placeable seen) = 0 \<longrightarrow> (highest_price a, highest_price_units a) = (PInt 0, PInt 0))
      \<and> (length (filter placeable seen) \<le> 1 \<longrightarrow> (second_highest_price a, second_highest_units a) = (PInt 0, PInt 0))
      \<and> (length (filter placeable seen) \<le> 2 \<longrightarrow> (third_highest_price a, third_highest_units a) = (PInt 0, PInt 0)))"


text \<open>A computation whose only possible exception is \<open>TypeError\<close>.\<close>

definition raises_only_TypeError :: "exn + 'a \<Rightarrow> bool" where
  "raises_only_TypeError m = (case m of Inl e \<Rightarrow> e = TypeError | Inr x \<Rightarrow> True)"

text \<open>The three listings of the scenario of the specification, and the loop's result on them.\<close>

definition scenario_listings :: "obj list" where
  "scenario_listings =
     [map_of [(''approximate_30_day_units_sold'', PInt 150), (''price'', PInt 20), (''reviews'', PInt 50)],
      map_of [(''approximate_30_day_units_sold'', PInt 200), (''price'', PInt 30), (''reviews'', PInt 150)],
      map_of [(''approximate_30_day_units_sold'', PInt 50), (''price'', PInt 100), (''reviews'', PInt 5)]]"

definition scenario_result :: agg where
  "scenario_result =
     \<lparr>total_sales = PInt 400, total_revenue = PInt 0, total_price = PInt 150, total_reviews = PInt 205,
      highest_price = PInt 30, highest_price_units = PInt 200,
      second_highest_price = PInt 20, second_highest_units = PInt 150,
      third_highest_price = PInt 0, third_highest_units = PInt 0,
      sellers_with_low_reviews = 2, irrelevant_listings = 0, count = 3\<rparr>"


text \<open>
  A world for the examples: a text for each exception, a keyword-insight item with a
  missing, a \<open>None\<close>, a container and a string attribute, a sheet with a header and three
  data rows, and collaborators that always answer. \<open>failing_env\<close> is the same world with a
  keyword query that raises and a product listing whose price is a string; \<open>gap_rows\<close> has
  a data row without cells.
\<close>

definition render_exn :: "exn \<Rightarrow> string" where
  "render_exn e =
     (case e of
        IndexError \<Rightarrow> ''list index out of range''
      | TypeError \<Rightarrow> ''TypeError''
      | HTTPException code detail \<Rightarrow> str_nat code @ '': '' @ detail
      | ExternalError m \<Rightarrow> m)"

definition demo_item :: obj where
  "demo_item =
     map_of [(''monthly_search_volume_exact'', PInt 1200),
             (''ease_of_ranking_score'', PFloat (7 / 2)),
             (''sponsored_product_count'', PBool True),
             (''monthly_trend'', PNone),
             (''recommended_promotions'', PList []),
             (''sp_brand_ad_bid'', PStr ''n/a'')]"

definition demo_rows :: "pyval list list" where
  "demo_rows =
     [[PStr ''Keyword'', PStr ''Volume''],
      [PStr ''lamp'', PStr ''''],
      [PStr ''desk'', PStr ''12''],
      [PStr '''', PStr '''']]"

definition gap_rows :: "pyval list list" where
  "gap_rows = [[PStr ''Keyword''], [PStr ''lamp''], [], [PStr ''desk'']]"

definition demo_env :: env where
  "demo_env =
     \<lparr>open_sheet = None,
      get_all_values = Inr demo_rows,
      keywords_by_keyword = (\<lambda>h k. Inr \<lparr>data = [demo_item]\<rparr>),
      product_database = (\<lambda>h k. Inr \<lparr>data = scenario_listings\<rparr>),
      update = (\<lambda>h r vs. None),
      str_val = (\<lambda>v. ''?''),
      str_exn = render_exn\<rparr>"


definition st0 :: state where
  "st0 = \<lparr>log_buffer = [], calls = []\<rparr>"

definition gap_env :: env where
  "gap_env = demo_env\<lparr>get_all_values := Inr gap_rows\<rparr>"

section \<open>Facts about the helpers and the loops\<close>

subsection \<open>The arithmetic and the sequencing\<close>

lemma bind_exn_Inr_iff: "bind_exn m f = Inr y \<longleftrightarrow> (\<exists>x. m = Inr x \<and> f x = Inr y)"
  by (cases m) (simp_all add: bind_exn_def)

lemma bind_exn_Inr [simp]: "bind_exn (Inr x) f = f x"
  by (simp add: bind_exn_def)

lemma bind_exn_Inl [simp]: "bind_exn (Inl e) f = Inl e"
  by (simp add: bind_exn_def)

lemma py_add_Inr_iff:
  "py_add a b = Inr c \<longleftrightarrow> is_number a \<and> is_number b \<and> c = (if is_float a \<or> is_float b then PFloat (num a + num b) else PInt (int_of a + int_of b))"
  by (auto simp: py_add_def)

lemma num_int_of: "is_number a \<Longrightarrow> \<not> is_float a \<Longrightarrow> num a = of_int (int_of a)"
  by (cases a) auto

lemma py_add_num:
  assumes "py_add a b = Inr c"
  shows "is_number a" "is_number b" "is_number c" "num c = num a + num b"
  using assms by (auto simp: py_add_Inr_iff num_int_of split: if_splits)

lemma py_add_total: "is_number a \<Longrightarrow> is_number b \<Longrightarrow> \<exists>c. py_add a b = Inr c"
  by (simp add: py_add_def)


lemma py_ge_Inr_iff: "py_ge a b = Inr c \<longleftrightarrow> is_number a \<and> is_number b \<and> c = (num a \<ge> num b)"
  by (auto simp: py_ge_def)

lemma py_lt_Inr_iff: "py_lt a b = Inr c \<longleftrightarrow> is_number a \<and> is_number b \<and> c = (num a < num b)"
  by (auto simp: py_lt_def)

subsection \<open>One iteration of the aggregation loop\<close>

text \<open>On numbers the placement is a plain case distinction on the price.\<close>

lemma place_tier_num:
  assumes "is_number price" "is_number (highest_price a)" "is_number (second_highest_price a)" "is_number (third_highest_price a)"
  shows "place_tier price units a =
    Inr (if num price > num (highest_price a)
      then a\<lparr>third_highest_price := second_highest_price a,
                    third_highest_units := second_highest_units a,
                    second_highest_price := highest_price a,
                    second_highest_units := highest_price_units a,
                    highest_price := price,
                    highest_price_units := units\<rparr>
      else if num price > num (second_highest_price a)
      then a\<lparr>third_highest_price := second_highest_price a,
                      third_highest_units := second_highest_units a,
                      second_highest_price := price,
                      second_highest_units := units\<rparr>
      else if num price > num (third_highest_price a)
      then a\<lparr>third_highest_price := price, third_highest_units := units\<rparr>
      else a)"
  using assms by (simp add: place_tier_def py_gt_def)

text \<open>What a normal end of one iteration says about its steps.\<close>

lemma product_step_cases:
  assumes "product_step p a = Inr a'"
  obtains ts tr tp tv a2 where
    "py_add (total_sales a) (units_sold_of p) = Inr ts"
    "py_add (total_revenue a) (revenue_of p) = Inr tr"
    "py_add (total_price a) (price_of p) = Inr tp"
    "py_add (total_reviews a) (reviews_of p) = Inr tv"
    "is_number (reviews_of p)" "is_number (units_sold_of p)"
    "(if num (units_sold_of p) \<ge> 100
      then place_tier (price_of p) (units_sold_of p)
            (a\<lparr>total_sales := ts, total_revenue := tr, total_price := tp,
                     total_reviews := tv, count := count a + 1\<rparr>)
      else Inr (a\<lparr>total_sales := ts, total_revenue := tr, total_price := tp,
                     total_reviews := tv, count := count a + 1\<rparr>)) = Inr a2"
    "a' = (if num (reviews_of p) < 100
           then a2\<lparr>sellers_with_low_reviews := sellers_with_low_reviews a2 + 1\<rparr> else a2)"
proof -
  from assms obtain ts where ts: "py_add (total_sales a) (units_sold_of p) = Inr ts"
    and r1: "bind_exn (py_add (total_revenue a) (revenue_of p)) (\<lambda>tr.
         bind_exn (py_add (total_price a) (price_of p)) (\<lambda>tp.
         bind_exn (py_add (total_reviews a) (reviews_of p)) (\<lambda>tv.
         let a1 = a\<lparr>total_sales := ts, total_revenue := tr, total_price := tp,
                     total_reviews := tv, count := count a + 1\<rparr>
         in bind_exn (py_ge (units_sold_of p) (PInt 100)) (\<lambda>qualifies.
            bind_exn (if qualifies then place_tier (price_of p) (units_sold_of p) a1 else Inr a1) (\<lambda>a2.
            bind_exn (py_lt (reviews_of p) (PInt 100)) (\<lambda>low.
            Inr (if low then a2\<lparr>sellers_with_low_reviews := sellers_with_low_reviews a2 + 1\<rparr>
                 else a2))))))) = Inr a'"
    unfolding product_step_def Let_def bind_exn_Inr_iff by blast
  from r1 obtain tr where tr: "py_add (total_revenue a) (revenue_of p) = Inr tr"
    and r2: "bind_exn (py_add (total_price a) (price_of p)) (\<lambda>tp.
         bind_exn (py_add (total_reviews a) (reviews_of p)) (\<lambda>tv.
         let a1 = a\<lparr>total_sales := ts, total_revenue := tr, total_price := tp,
                     total_reviews := tv, count := count a + 1\<rparr>
         in bind_exn (py_ge (units_sold_of p) (PInt 100)) (\<lambda>qualifies.
            bind_exn (if qualifies then place_tier (price_of p) (units_sold_of p) a1 else Inr a1) (\<lambda>a2.
            bind_exn (py_lt (reviews_of p) (PInt 100)) (\<lambda>low.
            Inr (if low then a2\<lparr>sellers_with_low_reviews := sellers_with_low_reviews a2 + 1\<rparr>
                 else a2)))))) = Inr a'"
    unfolding bind_exn_Inr_iff by blast
  from r2 obtain tp where tp: "py_add (total_price a) (price_of p) = Inr tp"
    and r3: "bind_exn (py_add (total_reviews a) (reviews_of p)) (\<lambda>tv.
         let a1 = a\<lparr>total_sales := ts, total_revenue := tr, total_price := tp,
                     total_reviews := tv, count := count a + 1\<rparr>
         in bind_exn (py_ge (units_sold_of p) (PInt 100)) (\<lambda>qualifies.
            bind_exn (if qualifies then place_tier (price_of p) (units_sold_of p) a1 else Inr a1) (\<lambda>a2.
            bind_exn (py_lt (reviews_of p) (PInt 100)) (\<lambda>low.
            Inr (if low then a2\<lparr>sellers_with_low_reviews := sellers_with_low_reviews a2 + 1\<rparr>
                 else a2))))) = Inr a'"
    unfolding bind_exn_Inr_iff by blast
  define a1 where "a1 tv = a\<lparr>total_sales := ts, total_revenue := tr, total_price := tp,
                     total_reviews := tv, count := count a + 1\<rparr>" for tv
  from r3 obtain tv where tv: "py_add (total_reviews a) (reviews_of p) = Inr tv"
    and r4: "bind_exn (py_ge (units_sold_of p) (PInt 100)) (\<lambda>qualifies.
            bind_exn (if qualifies then place_tier (price_of p) (units_sold_of p) (a1 tv) else Inr (a1 tv)) (\<lambda>a2.
            bind_exn (py_lt (reviews_of p) (PInt 100)) (\<lambda>low.
            Inr (if low then a2\<lparr>sellers_with_low_reviews := sellers_with_low_reviews a2 + 1\<rparr>
                 else a2)))) = Inr a'"
    unfolding bind_exn_Inr_iff Let_def a1_def by blast
  from r4 obtain q where q: "py_ge (units_sold_of p) (PInt 100) = Inr q"
    and r5: "bind_exn (if q then place_tier (price_of p) (units_sold_of p) (a1 tv) else Inr (a1 tv)) (\<lambda>a2.
            bind_exn (py_lt (reviews_of p) (PInt 100)) (\<lambda>low.
            Inr (if low then a2\<lparr>sellers_with_low_reviews := sellers_with_low_reviews a2 + 1\<rparr>
                 else a2))) = Inr a'"
    unfolding bind_exn_Inr_iff by blast
  from r5 obtain a2 where a2: "(if q then place_tier (price_of p) (units_sold_of p) (a1 tv) else Inr (a1 tv)) = Inr a2"
    and r6: "bind_exn (py_lt (reviews_of p) (PInt 100)) (\<lambda>low.
            Inr (if low then a2\<lparr>sellers_with_low_reviews := sellers_with_low_reviews a2 + 1\<rparr>
                 else a2)) = Inr a'"
    unfolding bind_exn_Inr_iff by blast
  from r6 obtain low where low: "py_lt (reviews_of p) (PInt 100) = Inr low"
    and r7: "a' = (if low then a2\<lparr>sellers_with_low_reviews := sellers_with_low_reviews a2 + 1\<rparr>
                 else a2)"
    unfolding bind_exn_Inr_iff by auto
  from q have q': "is_number (units_sold_of p)" "q = (num (units_sold_of p) \<ge> 100)"
    by (simp_all add: py_ge_Inr_iff)
  from low have low': "is_number (reviews_of p)" "low = (num (reviews_of p) < 100)"
    by (simp_all add: py_lt_Inr_iff)
  from a2 q'(2) have a2': "(if num (units_sold_of p) \<ge> 100
      then place_tier (price_of p) (units_sold_of p) (a1 tv) else Inr (a1 tv)) = Inr a2"
    by simp
  from r7 low'(2) have r8: "a' = (if num (reviews_of p) < 100
           then a2\<lparr>sellers_with_low_reviews := sellers_with_low_reviews a2 + 1\<rparr> else a2)"
    by simp
  show thesis
    by (rule that [OF ts tr tp tv low'(1) q'(1) a2' [unfolded a1_def] r8])
qed

subsection \<open>The invariant of the tiers\<close>

lemma sentinel_or_listing_mono: "sentinel_or_listing seen t \<Longrightarrow> sentinel_or_listing (seen @ rest) t"
  by (auto simp: sentinel_or_listing_def)

lemma sentinel_or_listing_new: "placeable p \<Longrightarrow> sentinel_or_listing (seen @ [p]) (price_of p, units_sold_of p)"
  by (auto simp: sentinel_or_listing_def)

lemma tiers_inv_init: "tiers_inv [] agg_init"
  by (simp add: tiers_inv_def agg_init_def sentinel_or_listing_def)

lemma tiers_inv_skip:
  assumes "tiers_inv seen a"
  shows "tiers_inv (seen @ [p]) a"
  using assms unfolding tiers_inv_def
  by (auto intro: sentinel_or_listing_mono)

lemma tiers_inv_place:
  assumes inv: "tiers_inv seen a" and n: "is_number (price_of p)" and q: "100 \<le> num (units_sold_of p)"
    and pl: "place_tier (price_of p) (units_sold_of p) a = Inr a2"
  shows "tiers_inv (seen @ [p]) a2"
proof -
  from inv have nums: "is_number (highest_price a)" "is_number (second_highest_price a)" "is_number (third_highest_price a)"
    and ord: "0 \<le> num (third_highest_price a)" "num (third_highest_price a) \<le> num (second_highest_price a)"
       "num (second_highest_price a) \<le> num (highest_price a)"
    by (simp_all add: tiers_inv_def)
  note eq = pl [unfolded place_tier_num [OF n nums], simplified]
  consider (h) "num (price_of p) > num (highest_price a)"
    | (s) "\<not> num (price_of p) > num (highest_price a)" "num (price_of p) > num (second_highest_price a)"
    | (t) "\<not> num (price_of p) > num (highest_price a)" "\<not> num (price_of p) > num (second_highest_price a)" "num (price_of p) > num (third_highest_price a)"
    | (n) "\<not> num (price_of p) > num (highest_price a)" "\<not> num (price_of p) > num (second_highest_price a)" "\<not> num (price_of p) > num (third_highest_price a)"
    by blast
  then show ?thesis
  proof cases
    case h
    then have pp: "placeable p" using q ord by (simp add: placeable_def)
    from h eq have a2: "a2 = a\<lparr>third_highest_price := second_highest_price a,
                    third_highest_units := second_highest_units a,
                    second_highest_price := highest_price a,
                    second_highest_units := highest_price_units a,
                    highest_price := price_of p,
                    highest_price_units := units_sold_of p\<rparr>" by simp
    show ?thesis using inv h pp n sentinel_or_listing_new [OF pp, of seen] unfolding a2 tiers_inv_def
      by (auto intro: sentinel_or_listing_mono)
  next
    case s
    then have pp: "placeable p" using q ord by (simp add: placeable_def)
    from s eq have a2: "a2 = a\<lparr>third_highest_price := second_highest_price a,
                      third_highest_units := second_highest_units a,
                      second_highest_price := price_of p,
                      second_highest_units := units_sold_of p\<rparr>" by simp
    show ?thesis using inv s pp n sentinel_or_listing_new [OF pp, of seen] unfolding a2 tiers_inv_def
      by (auto intro: sentinel_or_listing_mono)
  next
    case t
    then have pp: "placeable p" using q ord by (simp add: placeable_def)
    from t eq have a2: "a2 = a\<lparr>third_highest_price := price_of p, third_highest_units := units_sold_of p\<rparr>" by simp
    show ?thesis using inv t pp n sentinel_or_listing_new [OF pp, of seen] unfolding a2 tiers_inv_def
      by (auto intro: sentinel_or_listing_mono)
  next
    case n
    with eq have "a2 = a" by simp
    then show ?thesis using inv tiers_inv_skip by simp
  qed
qed

lemma tiers_inv_fields:
  assumes "highest_price b = highest_price a" "highest_price_units b = highest_price_units a"
    "second_highest_price b = second_highest_price a" "second_highest_units b = second_highest_units a"
    "third_highest_price b = third_highest_price a" "third_highest_units b = third_highest_units a"
  shows "tiers_inv seen b = tiers_inv seen a"
  using assms by (simp add: tiers_inv_def)

lemma tiers_inv_step:
  assumes inv: "tiers_inv seen a" and st: "product_step p a = Inr a'"
  shows "tiers_inv (seen @ [p]) a'"
proof -
  from st obtain ts tr tp tv a2 where
    tp: "py_add (total_price a) (price_of p) = Inr tp"
    and a2: "(if num (units_sold_of p) \<ge> 100
      then place_tier (price_of p) (units_sold_of p)
            (a\<lparr>total_sales := ts, total_revenue := tr, total_price := tp,
                     total_reviews := tv, count := count a + 1\<rparr>)
      else Inr (a\<lparr>total_sales := ts, total_revenue := tr, total_price := tp,
                     total_reviews := tv, count := count a + 1\<rparr>)) = Inr a2"
    and a': "a' = (if num (reviews_of p) < 100
           then a2\<lparr>sellers_with_low_reviews := sellers_with_low_reviews a2 + 1\<rparr> else a2)"
    by (rule product_step_cases)
  let ?a1 = "a\<lparr>total_sales := ts, total_revenue := tr, total_price := tp,
                     total_reviews := tv, count := count a + 1\<rparr>"
  have inv1: "tiers_inv seen ?a1"
    using inv by (simp add: tiers_inv_fields [of ?a1 a])
  have n: "is_number (price_of p)" using py_add_num(2) [OF tp] .
  have "tiers_inv (seen @ [p]) a2"
  proof (cases "num (units_sold_of p) \<ge> 100")
    case True
    with a2 have "place_tier (price_of p) (units_sold_of p) ?a1 = Inr a2" by simp
    from tiers_inv_place [OF inv1 n True this] show ?thesis .
  next
    case False
    with a2 have "a2 = ?a1" by simp
    with tiers_inv_skip [OF inv1] show ?thesis by simp
  qed
  then show ?thesis unfolding a'
    by (simp add: tiers_inv_fields [of "a2\<lparr>sellers_with_low_reviews := sellers_with_low_reviews a2 + 1\<rparr>" a2])
qed

lemma tiers_inv_loop:
  "tiers_inv seen a \<Longrightarrow> product_loop ps a = Inr a' \<Longrightarrow> tiers_inv (seen @ ps) a'"
proof (induction ps arbitrary: seen a)
  case Nil
  then show ?case by simp
next
  case (Cons p ps)
  from Cons.prems(2) obtain a1 where s: "product_step p a = Inr a1" and l: "product_loop ps a1 = Inr a'"
    by (auto simp: bind_exn_Inr_iff)
  from Cons.IH [OF tiers_inv_step [OF Cons.prems(1) s] l] show ?case by simp
qed

subsection \<open>The invariant of the totals\<close>





subsection \<open>When the loop raises\<close>


lemma product_step_Inr_numeric:
  assumes "product_step p a = Inr a'"
  shows "numeric_listing p"
proof -
  from assms obtain ts tr tp tv where
    "py_add (total_sales a) (units_sold_of p) = Inr ts"
    "py_add (total_revenue a) (revenue_of p) = Inr tr"
    "py_add (total_price a) (price_of p) = Inr tp"
    "py_add (total_reviews a) (reviews_of p) = Inr tv"
    by (rule product_step_cases)
  then show ?thesis
    by (simp add: numeric_listing_def py_add_Inr_iff)
qed

lemma only_TypeError_bind:
  "raises_only_TypeError m \<Longrightarrow> (\<And>x. raises_only_TypeError (f x)) \<Longrightarrow> raises_only_TypeError (bind_exn m f)"
  by (cases m) (simp_all add: raises_only_TypeError_def)

lemma only_TypeError_prims:
  "raises_only_TypeError (py_add x y)" "raises_only_TypeError (py_gt x y)"
  "raises_only_TypeError (py_ge x y)" "raises_only_TypeError (py_lt x y)"
  "raises_only_TypeError (Inr z)"
  by (simp_all add: raises_only_TypeError_def py_add_def py_gt_def py_ge_def py_lt_def)

lemma only_TypeError_if:
  "raises_only_TypeError x \<Longrightarrow> raises_only_TypeError y \<Longrightarrow> raises_only_TypeError (if c then x else y)"
  by simp

lemma only_TypeError_place_tier: "raises_only_TypeError (place_tier price units a)"
  unfolding place_tier_def
  by (intro only_TypeError_bind only_TypeError_if only_TypeError_prims)

lemma only_TypeError_product_step: "raises_only_TypeError (product_step p a)"
  unfolding product_step_def Let_def
  by (intro only_TypeError_bind only_TypeError_if only_TypeError_prims only_TypeError_place_tier)

lemma only_TypeError_product_loop: "raises_only_TypeError (product_loop ps a)"
  by (induction ps arbitrary: a) (simp_all add: only_TypeError_prims only_TypeError_bind only_TypeError_product_step)


subsection \<open>The scenario evaluated\<close>

lemma scenario_loop: "product_loop scenario_listings agg_init = Inr scenario_result"
  by (simp add: scenario_listings_def scenario_result_def agg_init_def product_step_def Let_def
        safe_getattr_def py_add_def py_ge_def py_gt_def py_lt_def place_tier_def)


subsection \<open>The calls the updaters make\<close>

text \<open>
  Each updater makes its query first and then at most one write; both updaters of a row
  therefore add exactly the keyword query and the product query to the queries made.
\<close>

lemma called_simps [simp]: "calls (called ev st) = calls st @ [ev]" "log_buffer (called ev st) = log_buffer st"
  by (simp_all add: called_def)

lemma log_message_simps [simp]: "calls (log_message m st) = calls st" "log_buffer (log_message m st) = log_buffer st @ [m]"
  by (simp_all add: log_message_def)





lemma fetch_keyword_insights_try_log:
  "fetch_keyword_insights_try w k i st = (r, st') \<Longrightarrow>
     log_buffer st' = log_buffer st @ (case r of Some e \<Rightarrow> [] | None \<Rightarrow> [last (log_buffer st')])"
  by (auto simp add: fetch_keyword_insights_try_def Let_def split: sum.splits list.splits option.splits)

lemma fetch_product_data_try_log:
  "fetch_product_data_try w k i st = (r, st') \<Longrightarrow>
     log_buffer st' = log_buffer st @ (case r of Some e \<Rightarrow> [] | None \<Rightarrow> [last (log_buffer st')])"
  by (auto simp add: fetch_product_data_try_def Let_def split: sum.splits list.splits option.splits if_splits)


subsection \<open>The loops over the rows\<close>

text \<open>
  The rows chosen, by recursion over the rows; the exception of a loop (only a row without
  cells raises); the loop as a fold of its body over the chosen rows; the rows after a row
  without cells play no part; and which pairs are chosen.
\<close>

lemma is_row_empty_Cons: "is_row_empty (k # cells) = (\<forall>c\<in>set cells. \<not> truthy c)"
  by (simp add: is_row_empty_def list_all_iff)

lemma is_row_empty_Nil: "is_row_empty []"
  by (simp add: is_row_empty_def)

lemma rows_all_note_acc:
  "snd (rows_all note_row idx rows acc) = acc @ snd (rows_all note_row idx rows [])"
proof (induction rows arbitrary: idx acc)
  case Nil
  show ?case by simp
next
  case (Cons row rows)
  show ?case
  proof (cases row)
    case Nil
    then show ?thesis by simp
  next
    case (Cons k cells)
    show ?thesis
      using Cons.IH [of "Suc idx" "note_row k idx acc"] Cons.IH [of "Suc idx" "note_row k idx []"] Cons.IH [of "Suc idx" acc]
      by (simp add: Cons note_row_def)
  qed
qed

lemma rows_new_note_acc:
  "snd (rows_new note_row idx rows acc) = acc @ snd (rows_new note_row idx rows [])"
proof (induction rows arbitrary: idx acc)
  case Nil
  show ?case by simp
next
  case (Cons row rows)
  show ?case
  proof (cases row)
    case Nil
    then show ?thesis by simp
  next
    case (Cons k cells)
    show ?thesis
      using Cons.IH [of "Suc idx" "note_row k idx acc"] Cons.IH [of "Suc idx" "note_row k idx []"] Cons.IH [of "Suc idx" acc]
      by (simp add: Cons note_row_def)
  qed
qed

lemma chosen_all_Cons:
  "snd (rows_all note_row idx ((k # cells) # rows) []) =
     (if truthy k then [(idx, k)] else []) @ snd (rows_all note_row (Suc idx) rows [])"
  using rows_all_note_acc [of "Suc idx" rows "[(idx, k)]"]
  by (simp add: note_row_def)

lemma chosen_new_Cons:
  "snd (rows_new note_row idx ((k # cells) # rows) []) =
     (if truthy k \<and> is_row_empty (k # cells) then [(idx, k)] else []) @ snd (rows_new note_row (Suc idx) rows [])"
  using rows_new_note_acc [of "Suc idx" rows "[(idx, k)]"]
  by (simp add: note_row_def)

lemma rows_all_fst: "fst (rows_all f idx rows s) = (if [] \<in> set rows then Some IndexError else None)"
  by (induction rows arbitrary: idx s) (auto split: list.splits)

lemma rows_new_fst: "fst (rows_new f idx rows s) = (if [] \<in> set rows then Some IndexError else None)"
  by (induction rows arbitrary: idx s) (auto split: list.splits)

lemma rows_all_snd:
  "snd (rows_all f idx rows s) = foldl (\<lambda>s (i, k). f k i s) s (snd (rows_all note_row idx rows []))"
proof (induction rows arbitrary: idx s)
  case Nil
  show ?case by simp
next
  case (Cons row rows)
  show ?case
  proof (cases row)
    case Nil
    then show ?thesis by simp
  next
    case (Cons k cells)
    show ?thesis unfolding Cons chosen_all_Cons
      using Cons.IH by simp
  qed
qed

lemma rows_new_snd:
  "snd (rows_new f idx rows s) = foldl (\<lambda>s (i, k). f k i s) s (snd (rows_new note_row idx rows []))"
proof (induction rows arbitrary: idx s)
  case Nil
  show ?case by simp
next
  case (Cons row rows)
  show ?case
  proof (cases row)
    case Nil
    then show ?thesis by simp
  next
    case (Cons k cells)
    show ?thesis unfolding Cons chosen_new_Cons
      using Cons.IH by simp
  qed
qed

lemma rows_all_cut: "rows_all f idx (pre @ [] # post) s = rows_all f idx (pre @ [[]]) s"
  by (induction pre arbitrary: idx s) (auto split: list.splits)

lemma rows_new_cut: "rows_new f idx (pre @ [] # post) s = rows_new f idx (pre @ [[]]) s"
  by (induction pre arbitrary: idx s) (auto split: list.splits)

lemma chosen_new_subset:
  "set (snd (rows_new note_row idx rows [])) \<subseteq> set (snd (rows_all note_row idx rows []))"
proof (induction rows arbitrary: idx)
  case Nil
  show ?case by simp
next
  case (Cons row rows)
  show ?case
  proof (cases row)
    case Nil
    then show ?thesis by simp
  next
    case (Cons k cells)
    show ?thesis unfolding Cons chosen_all_Cons chosen_new_Cons
      using Cons.IH [of "Suc idx"] by auto
  qed
qed

lemma chosen_all_iff:
  "(i, k) \<in> set (snd (rows_all note_row idx rows [])) \<longleftrightarrow>
     idx \<le> i \<and> i - idx < length rows \<and> [] \<notin> set (take (Suc (i - idx)) rows)
     \<and> (\<exists>cells. rows ! (i - idx) = k # cells \<and> truthy k)"
proof (induction rows arbitrary: idx)
  case Nil
  show ?case by simp
next
  case (Cons row rows)
  show ?case
  proof (cases row)
    case Nil
    then show ?thesis by simp
  next
    case c: (Cons k' cells')
    show ?thesis
    proof (cases "i = idx")
      case True
      have "(idx, k) \<notin> set (snd (rows_all note_row (Suc idx) rows []))"
        using Cons.IH [of "Suc idx"] True by simp
      then show ?thesis unfolding c chosen_all_Cons using True by auto
    next
      case False
      show ?thesis
      proof (cases "idx < i")
        case True
        then have e: "i - idx = Suc (i - Suc idx)" by simp
        show ?thesis unfolding c chosen_all_Cons using False True Cons.IH [of "Suc idx"]
          by (auto simp: e)
      next
        case False
        then show ?thesis unfolding c chosen_all_Cons using Cons.IH [of "Suc idx"] by auto
      qed
    qed
  qed
qed

lemma chosen_new_iff:
  "(i, k) \<in> set (snd (rows_new note_row idx rows [])) \<longleftrightarrow>
     idx \<le> i \<and> i - idx < length rows \<and> [] \<notin> set (take (Suc (i - idx)) rows)
     \<and> (\<exists>cells. rows ! (i - idx) = k # cells \<and> truthy k \<and> (\<forall>c\<in>set cells. \<not> truthy c))"
proof (induction rows arbitrary: idx)
  case Nil
  show ?case by simp
next
  case (Cons row rows)
  show ?case
  proof (cases row)
    case Nil
    then show ?thesis by simp
  next
    case c: (Cons k' cells')
    show ?thesis
    proof (cases "i = idx")
      case True
      have "(idx, k) \<notin> set (snd (rows_new note_row (Suc idx) rows []))"
        using Cons.IH [of "Suc idx"] True by simp
      then show ?thesis unfolding c chosen_new_Cons using True by (auto simp: is_row_empty_Cons)
    next
      case False
      show ?thesis
      proof (cases "idx < i")
        case True
        then have e: "i - idx = Suc (i - Suc idx)" by simp
        show ?thesis unfolding c chosen_new_Cons using False True Cons.IH [of "Suc idx"]
          by (auto simp: e)
      next
        case False
        then show ?thesis unfolding c chosen_new_Cons using Cons.IH [of "Suc idx"]
          by (auto simp: is_row_empty_Cons)
      qed
    qed
  qed
qed

subsection \<open>Evaluations on the concrete inputs\<close>

lemma str_nat_2: "str_nat 2 = ''2''" by (simp add: str_nat.simps)

lemma str_nat_3: "str_nat 3 = ''3''" by (simp add: str_nat.simps)

lemma str_nat_400: "str_nat 400 = ''400''" by (simp add: str_nat.simps)

lemma falsy_iff: "\<not> truthy c \<longleftrightarrow> c \<in> {PStr [], PInt 0, PFloat 0, PBool False, PNone, PList []}"
  by (cases c) auto

lemma demo_selected_all: "selected_all (drop 1 demo_rows) = [(2, PStr ''lamp''), (3, PStr ''desk'')]"
  by (simp add: selected_all_def demo_rows_def note_row_def)

lemma demo_selected_new: "selected_new (drop 1 demo_rows) = [(2, PStr ''lamp'')]"
  by (simp add: selected_new_def demo_rows_def note_row_def is_row_empty_def)

lemma falsy_keyword_not_selected: "(j + 2, k') \<notin> set (selected_all data_rows)"
    if "data_rows ! j = k # cells" "\<not> truthy k" for j k k' cells
    using that unfolding selected_all_def chosen_all_iff by auto

subsection \<open>The run\<close>

lemma rows_all_stop: "snd (rows_all f idx (pre @ [] # post) s) = snd (rows_all f idx pre s)"
  by (induction pre arbitrary: idx s) (auto split: list.splits)

lemma rows_new_stop: "snd (rows_new f idx (pre @ [] # post) s) = snd (rows_new f idx pre s)"
  by (induction pre arbitrary: idx s) (auto split: list.splits)

lemma run_automation_try_all:
  assumes "open_sheet w = None" "get_all_values w = Inr rows"
  shows "run_automation_try w ''all'' st =
     (case fst (rows_all (update_row w) 2 (drop 1 rows)
                  (log_message ''Processing all rows...'' (called GetAllValues (called OpenSheet st)))) of
        Some e \<Rightarrow> Inl e | None \<Rightarrow> Inr ''Automation completed successfully'',
      snd (rows_all (update_row w) 2 (drop 1 rows)
                  (log_message ''Processing all rows...'' (called GetAllValues (called OpenSheet st)))))"
  using assms
  by (simp add: run_automation_try_def Let_def split: prod.splits option.splits)

lemma run_automation_try_new:
  assumes "open_sheet w = None" "get_all_values w = Inr rows"
  shows "run_automation_try w ''new'' st =
     (case fst (rows_new (update_row w) 2 (drop 1 rows)
                  (log_message ''Processing new rows...'' (called GetAllValues (called OpenSheet st)))) of
        Some e \<Rightarrow> Inl e | None \<Rightarrow> Inr ''Automation completed successfully'',
      snd (rows_new (update_row w) 2 (drop 1 rows)
                  (log_message ''Processing new rows...'' (called GetAllValues (called OpenSheet st)))))"
  using assms
  by (simp add: run_automation_try_def Let_def split: prod.splits option.splits)

subsection \<open>What the updaters write\<close>

lemma safe_getattr_cases:
  "safe_getattr item attr (PInt 0) =
     (case item attr of None \<Rightarrow> PInt 0 | Some v \<Rightarrow> if is_int_float_str v then v else PInt 0)"
  by (simp add: safe_getattr_def split: option.splits)

lemma fetch_keyword_insights_written:
  assumes "keywords_by_keyword w (calls st) keyword = Inr response" "data response = item # others"
  shows "calls (fetch_keyword_insights w keyword row_index st) =
           calls st @ [KeywordsByKeyword keyword,
                       Update (''B'' @ str_nat row_index) [keyword_insights_values item]]"
  using assms
  by (simp add: fetch_keyword_insights_def fetch_keyword_insights_try_def Let_def split: option.splits)

lemma demo_values:
  "keyword_insights_values demo_item =
     [PInt 1200, PInt 0, PFloat (7 / 2), PBool True,
      PNone, PNone, PNone, PNone, PNone, PNone, PNone, PNone, PNone, PNone, PNone, PNone,
      PInt 0, PInt 0, PInt 0, PStr ''n/a'', PInt 0, PInt 0, PInt 0]"
  by (simp add: keyword_insights_values_def demo_item_def safe_getattr_def)

subsection \<open>The run with failing collaborators\<close>






section \<open>The claims\<close>

text \<open>
  Claim C2. After the aggregation loop has run over any list of product records (that is,
  whenever it ends without an exception), the three tier prices are non-increasing, and
  every tier is either the sentinel \<open>(0, 0)\<close> or the (price, units) pair of a listing of
  the list with at least 100 units sold. A tier stays the sentinel as long as fewer
  listings than its rank both qualify and have a positive price (a listing whose price is
  not above 0 is never placed).
\<close>

theorem tiers_non_increasing:
  assumes "product_loop ps agg_init = Inr a"
  shows "num (third_highest_price a) \<le> num (second_highest_price a)
       \<and> num (second_highest_price a) \<le> num (highest_price a)
       \<and> (\<forall>tier \<in> {(highest_price a, highest_price_units a),
                      (second_highest_price a, second_highest_units a),
                      (third_highest_price a, third_highest_units a)}.
             tier = (PInt 0, PInt 0)
             \<or> (\<exists>p\<in>set ps. 100 \<le> num (units_sold_of p) \<and> tier = (price_of p, units_sold_of p)))
       \<and> (length (filter (\<lambda>p. 100 \<le> num (units_sold_of p) \<and> 0 < num (price_of p)) ps) = 0
            \<longrightarrow> (highest_price a, highest_price_units a) = (PInt 0, PInt 0))
       \<and> (length (filter (\<lambda>p. 100 \<le> num (units_sold_of p) \<and> 0 < num (price_of p)) ps) \<le> 1
            \<longrightarrow> (second_highest_price a, second_highest_units a) = (PInt 0, PInt 0))
       \<and> (length (filter (\<lambda>p. 100 \<le> num (units_sold_of p) \<and> 0 < num (price_of p)) ps) \<le> 2
            \<longrightarrow> (third_highest_price a, third_highest_units a) = (PInt 0, PInt 0))"
proof -
  have inv: "tiers_inv ps a"
    using tiers_inv_loop [OF tiers_inv_init assms] by simp
  have pl: "placeable = (\<lambda>p. 100 \<le> num (units_sold_of p) \<and> 0 < num (price_of p))"
    by (rule ext) (simp add: placeable_def)
  have sl: "sentinel_or_listing ps t \<Longrightarrow>
      t = (PInt 0, PInt 0) \<or> (\<exists>p\<in>set ps. 100 \<le> num (units_sold_of p) \<and> t = (price_of p, units_sold_of p))" for t
    unfolding sentinel_or_listing_def placeable_def by blast
  from inv have ord: "num (third_highest_price a) \<le> num (second_highest_price a)"
      "num (second_highest_price a) \<le> num (highest_price a)"
    and s: "sentinel_or_listing ps (highest_price a, highest_price_units a)"
       "sentinel_or_listing ps (second_highest_price a, second_highest_units a)"
       "sentinel_or_listing ps (third_highest_price a, third_highest_units a)"
    and c: "length (filter placeable ps) = 0 \<longrightarrow> (highest_price a, highest_price_units a) = (PInt 0, PInt 0)"
       "length (filter placeable ps) \<le> 1 \<longrightarrow> (second_highest_price a, second_highest_units a) = (PInt 0, PInt 0)"
       "length (filter placeable ps) \<le> 2 \<longrightarrow> (third_highest_price a, third_highest_units a) = (PInt 0, PInt 0)"
    unfolding tiers_inv_def by blast+
  show ?thesis
    using ord sl [OF s(1)] sl [OF s(2)] sl [OF s(3)] c [unfolded pl]
    by blast
qed

text \<open>The scenario of the specification: two qualifying listings, the third tier is unfilled.\<close>

theorem tiers_non_increasing_witness:
  "product_loop scenario_listings agg_init = Inr scenario_result
   \<and> num (third_highest_price scenario_result) \<le> num (second_highest_price scenario_result)
   \<and> num (second_highest_price scenario_result) \<le> num (highest_price scenario_result)
   \<and> (third_highest_price scenario_result, third_highest_units scenario_result) = (PInt 0, PInt 0)"
proof -
  have two: "length (filter (\<lambda>p. 100 \<le> num (units_sold_of p) \<and> 0 < num (price_of p)) scenario_listings) \<le> 2"
    by (simp add: scenario_listings_def safe_getattr_def)
  show ?thesis
    using tiers_non_increasing [OF scenario_loop] scenario_loop two by blast
qed



text \<open>
  Claim C1 does not hold as stated. With the mode \<open>bogus\<close> the rows of the sheet are read
  (\<open>get_all_values\<close> is called before the mode is looked at), and the
  \<open>HTTPException(status_code=400)\<close> raised for the mode is caught by the \<open>except Exception\<close>
  of the same function, logged, and answered as status 500.
\<close>

theorem invalid_mode_reads_rows_and_answers_500:
  "run_automation demo_env ''bogus'' st0 =
     (Inl (HTTPException 500 ''Internal Server Error''),
      \<lparr>log_buffer = [''Error in automation: 400: Invalid update mode''],
       calls = [OpenSheet, GetAllValues]\<rparr>)"
  by (simp add: run_automation_def run_automation_try_def demo_env_def st0_def called_def
        log_message_def render_exn_def str_nat_400)

text \<open>
  Claim C1, amended. For every mode other than \<open>all\<close> and \<open>new\<close>, \<open>run_automation\<close> fails
  with an HTTP error; the sheet is opened and, when that succeeds, all rows are read once,
  and nothing else happens: no market-data query and no write to the sheet.
\<close>

theorem invalid_mode_fails_without_update:
  assumes "update_mode \<noteq> ''all''" "update_mode \<noteq> ''new''"
  shows "(\<exists>code detail. fst (run_automation w update_mode st) = Inl (HTTPException code detail))
       \<and> calls (snd (run_automation w update_mode st)) =
           calls st @ (if open_sheet w = None then [OpenSheet, GetAllValues] else [OpenSheet])"
  using assms
  by (simp add: run_automation_def run_automation_try_def Let_def split: option.splits sum.splits)

text \<open>The amended claim at the mode \<open>bogus\<close>.\<close>

theorem invalid_mode_fails_without_update_witness:
  "''bogus'' \<noteq> ''all'' \<and> ''bogus'' \<noteq> ''new''
   \<and> calls (snd (run_automation demo_env ''bogus'' st0)) = [OpenSheet, GetAllValues]"
proof -
  have m: "''bogus'' \<noteq> ''all''" "''bogus'' \<noteq> ''new''" by simp_all
  have o: "open_sheet demo_env = None" by (simp add: demo_env_def)
  show ?thesis
    using invalid_mode_fails_without_update [OF m, of demo_env st0] m o
    by (simp add: st0_def)
qed

text \<open>
  Claim C5. On the same data rows, every (row number, keyword) pair chosen by the loop of
  mode \<open>new\<close> is chosen by the loop of mode \<open>all\<close>; a row whose keyword cell is falsy is
  chosen by neither. The chosen pairs are exactly the rows on which the loops run their
  body, whatever the body is.
\<close>

theorem new_selection_subset_of_all:
  "set (selected_new data_rows) \<subseteq> set (selected_all data_rows)
   \<and> (\<forall>j k cells. j < length data_rows \<and> data_rows ! j = k # cells \<and> \<not> truthy k
        \<longrightarrow> (\<forall>k'. (j + 2, k') \<notin> set (selected_all data_rows)
                  \<and> (j + 2, k') \<notin> set (selected_new data_rows)))
   \<and> snd (rows_all f 2 data_rows s) = foldl (\<lambda>s (i, k). f k i s) s (selected_all data_rows)
   \<and> snd (rows_new f 2 data_rows s) = foldl (\<lambda>s (i, k). f k i s) s (selected_new data_rows)"
proof -
  have sub: "set (selected_new data_rows) \<subseteq> set (selected_all data_rows)"
    unfolding selected_new_def selected_all_def by (rule chosen_new_subset)
  have 1: "\<forall>j k cells. j < length data_rows \<and> data_rows ! j = k # cells \<and> \<not> truthy k
        \<longrightarrow> (\<forall>k'. (j + 2, k') \<notin> set (selected_all data_rows)
                  \<and> (j + 2, k') \<notin> set (selected_new data_rows))"
    using sub falsy_keyword_not_selected by blast
  have 2: "snd (rows_all f 2 data_rows s) = foldl (\<lambda>s (i, k). f k i s) s (selected_all data_rows)"
    unfolding selected_all_def by (rule rows_all_snd)
  have 3: "snd (rows_new f 2 data_rows s) = foldl (\<lambda>s (i, k). f k i s) s (selected_new data_rows)"
    unfolding selected_new_def by (rule rows_new_snd)
  from sub 1 2 3 show ?thesis by (intro conjI)
qed

text \<open>
  Claim C6. When every data row has at least its keyword cell, mode \<open>new\<close> chooses row
  \<open>i\<close> with keyword \<open>k\<close> exactly when \<open>k\<close> is the truthy first cell of that row and every
  other cell of the row is falsy: the empty string, a zero, \<open>False\<close>, \<open>None\<close> or an empty
  container (a row with no further cells has none to check). A row with a keyword and
  any truthy other cell is skipped; the string \<open>''0''\<close> is truthy.
\<close>

theorem new_mode_selects_iff:
  assumes "[] \<notin> set data_rows"
  shows "(i, k) \<in> set (selected_new data_rows) \<longleftrightarrow>
           2 \<le> i \<and> i - 2 < length data_rows
           \<and> (\<exists>cells. data_rows ! (i - 2) = k # cells \<and> truthy k
                \<and> (\<forall>c\<in>set cells. c \<in> {PStr [], PInt 0, PFloat 0, PBool False, PNone, PList []}))"
proof -
  have "[] \<notin> set (take n data_rows)" for n
    using assms by (auto dest: in_set_takeD)
  then show ?thesis
    unfolding selected_new_def chosen_new_iff falsy_iff [symmetric] by simp
qed

text \<open>The row of \<open>lamp\<close> is chosen, the row of \<open>desk\<close>, which has a value, is not.\<close>

theorem new_mode_selects_iff_witness:
  "[] \<notin> set (drop 1 demo_rows)
   \<and> (2, PStr ''lamp'') \<in> set (selected_new (drop 1 demo_rows))
   \<and> (3, PStr ''desk'') \<notin> set (selected_new (drop 1 demo_rows))"
proof -
  have h: "[] \<notin> set (drop 1 demo_rows)" by (simp add: demo_rows_def)
  have "(2, PStr ''lamp'') \<in> set (selected_new (drop 1 demo_rows))"
    unfolding new_mode_selects_iff [OF h] by (simp add: demo_rows_def)
  moreover have "(3, PStr ''desk'') \<notin> set (selected_new (drop 1 demo_rows))"
    unfolding new_mode_selects_iff [OF h] by (simp add: demo_rows_def)
  ultimately show ?thesis using h by simp
qed

text \<open>Three data rows: one new, one already filled, one without a keyword.\<close>

theorem new_selection_subset_of_all_witness:
  "set (selected_new (drop 1 demo_rows)) \<subseteq> set (selected_all (drop 1 demo_rows))
   \<and> selected_new (drop 1 demo_rows) = [(2, PStr ''lamp'')]
   \<and> selected_all (drop 1 demo_rows) = [(2, PStr ''lamp''), (3, PStr ''desk'')]
   \<and> (2 < length (drop 1 demo_rows) \<and> drop 1 demo_rows ! 2 = [PStr [], PStr []]
        \<and> \<not> truthy (PStr []))
   \<and> (4, PStr []) \<notin> set (selected_all (drop 1 demo_rows))"
proof -
  note t = new_selection_subset_of_all [of "drop 1 demo_rows" "\<lambda>k i s. s" "()"]
  have r: "(2::nat) < length (drop 1 demo_rows) \<and> drop 1 demo_rows ! 2 = [PStr [], PStr []]
           \<and> \<not> truthy (PStr [])"
    by (simp add: demo_rows_def)
  from t have sub: "set (selected_new (drop 1 demo_rows)) \<subseteq> set (selected_all (drop 1 demo_rows))"
    by (rule conjunct1)
  from t have "\<forall>j k cells. j < length (drop 1 demo_rows) \<and> drop 1 demo_rows ! j = k # cells \<and> \<not> truthy k
        \<longrightarrow> (\<forall>k'. (j + 2, k') \<notin> set (selected_all (drop 1 demo_rows))
                  \<and> (j + 2, k') \<notin> set (selected_new (drop 1 demo_rows)))"
    by (elim conjE)
  from this [rule_format, OF r, of "PStr []"]
  have "(4, PStr []) \<notin> set (selected_all (drop 1 demo_rows))" by simp
  with sub r show ?thesis
    using demo_selected_all demo_selected_new by (intro conjI) simp_all
qed

text \<open>
  Claim C10. When the sheet holds a data row without any cell, a run in mode \<open>all\<close> or
  \<open>new\<close> ends with status 500: \<open>row[0]\<close> raises \<open>IndexError\<close>, which reaches the outer
  handler and is logged as the last line. The rows after that row are not looked at: the
  rows chosen are those chosen among the rows before it.
\<close>

theorem row_without_cells_aborts_run:
  assumes "open_sheet w = None" "get_all_values w = Inr (header # pre @ [] # post)"
    and "update_mode = ''all'' \<or> update_mode = ''new''"
  shows "fst (run_automation w update_mode st) = Inl (HTTPException 500 ''Internal Server Error'')
       \<and> last (log_buffer (snd (run_automation w update_mode st))) =
           ''Error in automation: '' @ str_exn w IndexError
       \<and> selected_all (pre @ [] # post) = selected_all pre
       \<and> selected_new (pre @ [] # post) = selected_new pre"
proof -
  have sel: "selected_all (pre @ [] # post) = selected_all pre"
    "selected_new (pre @ [] # post) = selected_new pre"
    by (simp_all add: selected_all_def selected_new_def rows_all_stop rows_new_stop)
  from assms(3) show ?thesis
  proof
    assume m: "update_mode = ''all''"
    show ?thesis
      unfolding m run_automation_def run_automation_try_all [OF assms(1,2)]
      by (simp add: rows_all_fst sel)
  next
    assume m: "update_mode = ''new''"
    show ?thesis
      unfolding m run_automation_def run_automation_try_new [OF assms(1,2)]
      by (simp add: rows_new_fst sel)
  qed
qed

text \<open>A sheet whose second data row has no cell: the run ends with status 500 after the first.\<close>

theorem row_without_cells_aborts_run_witness:
  "open_sheet gap_env = None
   \<and> get_all_values gap_env = Inr ([PStr ''Keyword''] # [[PStr ''lamp'']] @ [] # [[PStr ''desk'']])
   \<and> fst (run_automation gap_env ''all'' st0) = Inl (HTTPException 500 ''Internal Server Error'')
   \<and> last (log_buffer (snd (run_automation gap_env ''all'' st0))) =
         ''Error in automation: list index out of range''
   \<and> selected_all ([[PStr ''lamp'']] @ [] # [[PStr ''desk'']]) = [(2, PStr ''lamp'')]"
proof -
  have o: "open_sheet gap_env = None"
    by (simp add: gap_env_def demo_env_def)
  have g: "get_all_values gap_env = Inr ([PStr ''Keyword''] # [[PStr ''lamp'']] @ [] # [[PStr ''desk'']])"
    by (simp add: gap_env_def gap_rows_def)
  have m: "''all'' = ''all'' \<or> ''all'' = ''new''" by simp
  have s: "selected_all [[PStr ''lamp'']] = [(2, PStr ''lamp'')]"
    by (simp add: selected_all_def note_row_def)
  have e: "str_exn gap_env IndexError = ''list index out of range''"
    by (simp add: gap_env_def demo_env_def render_exn_def)
  from row_without_cells_aborts_run [OF o g m, of st0] o g s e show ?thesis
    by simp
qed

text \<open>
  Claim C7, amended. When the keyword-insight response carries data,
  \<open>fetch_keyword_insights\<close> makes the query and then one write at column B of the target
  row, of one row of 23 values: the four insight values, twelve blank placeholders (three
  groups of four, the columns F to Q that \<open>fetch_product_data\<close> fills), then the two
  trends, the recommended promotions, the three bids and the estimated 30-day volume.
  Each value is the attribute when it is an \<open>int\<close>, \<open>float\<close> or \<open>str\<close>, and 0 when the
  attribute is missing or of another type.
\<close>

theorem keyword_insights_row_layout:
  assumes "keywords_by_keyword w (calls st) keyword = Inr response" "data response = item # others"
  shows "calls (fetch_keyword_insights w keyword row_index st) =
           calls st @ [KeywordsByKeyword keyword,
                       Update (''B'' @ str_nat row_index)
                         [map (\<lambda>attr. safe_getattr item attr (PInt 0))
                            [''monthly_search_volume_exact'', ''monthly_search_volume_broad'',
                             ''ease_of_ranking_score'', ''sponsored_product_count'']
                          @ replicate 12 PNone
                          @ map (\<lambda>attr. safe_getattr item attr (PInt 0))
                            [''monthly_trend'', ''quarterly_trend'', ''recommended_promotions'',
                             ''sp_brand_ad_bid'', ''ppc_bid_broad'', ''ppc_bid_exact'',
                             ''estimated_30_day_search_volume'']]]
       \<and> length (keyword_insights_values item) = 23
       \<and> (\<forall>attr. safe_getattr item attr (PInt 0) =
             (case item attr of
                None \<Rightarrow> PInt 0
              | Some v \<Rightarrow> if is_int_float_str v then v else PInt 0))"
proof -
  have v: "keyword_insights_values item =
             map (\<lambda>attr. safe_getattr item attr (PInt 0))
                            [''monthly_search_volume_exact'', ''monthly_search_volume_broad'',
                             ''ease_of_ranking_score'', ''sponsored_product_count'']
                          @ replicate 12 PNone
                          @ map (\<lambda>attr. safe_getattr item attr (PInt 0))
                            [''monthly_trend'', ''quarterly_trend'', ''recommended_promotions'',
                             ''sp_brand_ad_bid'', ''ppc_bid_broad'', ''ppc_bid_exact'',
                             ''estimated_30_day_search_volume'']"
    by (simp add: keyword_insights_values_def numeral_eq_Suc)
  have l: "length (keyword_insights_values item) = 23"
    by (simp add: keyword_insights_values_def)
  show ?thesis
    using fetch_keyword_insights_written [OF assms, of row_index] l safe_getattr_cases
    unfolding v by blast
qed

text \<open>
  Claim C7 does not hold as stated: the row written is 23 values wide, not 21, and holds
  twelve placeholders, not sixteen.
\<close>

theorem keyword_insights_row_is_23_wide:
  "calls (fetch_keyword_insights demo_env (PStr ''lamp'') 2 st0) =
     [KeywordsByKeyword (PStr ''lamp''),
      Update ''B2''
        [[PInt 1200, PInt 0, PFloat (7 / 2), PBool True,
          PNone, PNone, PNone, PNone, PNone, PNone, PNone, PNone, PNone, PNone, PNone, PNone,
          PInt 0, PInt 0, PInt 0, PStr ''n/a'', PInt 0, PInt 0, PInt 0]]]
   \<and> length (keyword_insights_values demo_item) = 23"
proof -
  have k: "keywords_by_keyword demo_env (calls st0) (PStr ''lamp'') = Inr \<lparr>data = [demo_item]\<rparr>"
    by (simp add: demo_env_def)
  have d: "data \<lparr>data = [demo_item]\<rparr> = demo_item # []" by simp
  from fetch_keyword_insights_written [OF k d, of 2] show ?thesis
    by (simp add: demo_values st0_def str_nat_2)
qed

text \<open>
  A response whose item has a \<open>None\<close> trend, no quarterly trend and a string bid: the
  first two become 0, the string is written as it is.
\<close>

theorem keyword_insights_row_layout_witness:
  "keywords_by_keyword demo_env (calls st0) (PStr ''lamp'') = Inr \<lparr>data = [demo_item]\<rparr>
   \<and> data \<lparr>data = [demo_item]\<rparr> = demo_item # []
   \<and> length (keyword_insights_values demo_item) = 23
   \<and> safe_getattr demo_item ''monthly_trend'' (PInt 0) = PInt 0
   \<and> safe_getattr demo_item ''quarterly_trend'' (PInt 0) = PInt 0
   \<and> safe_getattr demo_item ''sp_brand_ad_bid'' (PInt 0) = PStr ''n/a''"
proof -
  have k: "keywords_by_keyword demo_env (calls st0) (PStr ''lamp'') = Inr \<lparr>data = [demo_item]\<rparr>"
    by (simp add: demo_env_def)
  have d: "data \<lparr>data = [demo_item]\<rparr> = demo_item # []" by simp
  note t = keyword_insights_row_layout [OF k d, of 2]
  from t have l: "length (keyword_insights_values demo_item) = 23" by (elim conjE)
  from t have c: "\<forall>attr. safe_getattr demo_item attr (PInt 0) =
             (case demo_item attr of
                None \<Rightarrow> PInt 0
              | Some v \<Rightarrow> if is_int_float_str v then v else PInt 0)" by (elim conjE)
  have "safe_getattr demo_item ''monthly_trend'' (PInt 0) = PInt 0"
    "safe_getattr demo_item ''quarterly_trend'' (PInt 0) = PInt 0"
    "safe_getattr demo_item ''sp_brand_ad_bid'' (PInt 0) = PStr ''n/a''"
    unfolding c [rule_format] by (simp_all add: demo_item_def)
  with k d l show ?thesis by (intro conjI)
qed





section \<open>The log endpoint\<close>

text \<open>
  Claim C9. Reading the logs returns the whole accumulated buffer and leaves the buffer
  empty; a second read with nothing appended in between returns the empty list.
\<close>

theorem get_logs_drains:
  "fst (get_logs st) = log_buffer st
   \<and> log_buffer (snd (get_logs st)) = []
   \<and> fst (get_logs (snd (get_logs st))) = []
   \<and> calls (snd (get_logs st)) = calls st"
  by (simp add: get_logs_def)

end
